theory Spec2Isabelle
  imports Complex_Main
begin

section \<open>The generic prompt of cliffy: \<open>src/prompt/_generic_prompt.ts\<close>\<close>

text \<open>
  A shallow embedding of the class \<open>GenericPrompt\<close>. The asynchronous code is
  single-threaded and every \<open>await\<close> is sequenced, so a method is a function from the
  state before the call to an outcome and the state after it. Everything the class does
  to the terminal, to the reader and to the caller's callbacks is appended to a list of
  effects, in the order of the calls. Writes to the terminal and the callbacks return;
  a read may reject and the key decoder may throw. The methods are those of the base
  class: a subclass that overrides one is another program.

  A JavaScript string is a \<open>string\<close>, one character for each code unit that
  \<open>length\<close> counts, and a byte of the read buffer is a natural number.
\<close>

subsection \<open>JavaScript values\<close>

text \<open>
  \<open>TValue\<close>, \<open>TRawValue\<close> and the \<open>unknown\<close> injected value are JavaScript values.
  Numbers are integers here (no \<open>NaN\<close>, no fractions); \<open>JObj\<close> is a reference to an object
  or array, which is always truthy.
\<close>

datatype jsval = JUndefined | JNull | JBool bool | JNum int | JStr string | JObj nat

text \<open>JavaScript's \<open>ToBoolean\<close>: what \<open>!value\<close> and \<open>filter(Boolean)\<close> test.\<close>

fun truthy :: "jsval \<Rightarrow> bool" where
  "truthy JUndefined = False"
| "truthy JNull = False"
| "truthy (JBool b) = b"
| "truthy (JNum n) = (n \<noteq> 0)"
| "truthy (JStr s) = (s \<noteq> [])"
| "truthy (JObj r) = True"

text \<open>The same test for a \<open>string | undefined\<close>: undefined and the empty string are falsy.\<close>

fun truthy_str :: "string option \<Rightarrow> bool" where
  "truthy_str None = False"
| "truthy_str (Some s) = (s \<noteq> [])"

subsection \<open>Key events, options and settings\<close>

text \<open>\<open>KeyCode\<close> of \<open>keycode/key_code.ts\<close>, as far as this file reads it.\<close>

record key_code =
  name :: "string option"
  sequence :: "string option"
  ctrl :: bool
  meta :: bool
  shift :: bool

text \<open>
  A key map is a JavaScript object: a property is absent (\<open>None\<close>), or present with a
  value that is an array of key names or \<open>undefined\<close>.
\<close>

type_synonym keymap = "string \<rightharpoonup> string list option"

text \<open>\<open>GenericPromptOptions\<close>: every optional property is \<open>undefined\<close> when absent.\<close>

record options =
  message :: string
  default :: jsval
  hideDefault :: "bool option"
  validate :: "(jsval \<Rightarrow> jsval) option"
  transform :: "(jsval \<Rightarrow> jsval) option"
  hint :: "string option"
  pointer :: "string option"
  indent :: "string option"
  keys :: "keymap option"
  cbreak :: "bool option"
  prefix :: "string option"
  reader :: "nat option"
  writer :: "nat option"

text \<open>
  \<open>GenericPromptSettings\<close>. A reader is its resource id \<open>rid\<close>, a writer the descriptor it
  writes to; the \<open>tty\<close> is the writer its escape sequences go to.
\<close>

record settings =
  message :: string
  default :: jsval
  hideDefault :: "bool option"
  validate :: "(jsval \<Rightarrow> jsval) option"
  transform :: "(jsval \<Rightarrow> jsval) option"
  hint :: "string option"
  pointer :: string
  indent :: string
  keys :: "keymap option"
  cbreak :: bool
  prefix :: string
  reader :: nat
  writer :: nat
  tty :: nat

text \<open>The abstract methods a concrete prompt implements, and its optional \<open>body\<close>.\<close>

record widget =
  transform :: "jsval \<Rightarrow> jsval"
  validate :: "jsval \<Rightarrow> jsval"
  format :: "jsval \<Rightarrow> string"
  getValue :: jsval
  body :: "(string option) option"

subsection \<open>What the file imports and the runtime it calls\<close>

datatype console_size = ConsoleSizeThrows | ConsoleSize "nat option"

text \<open>
  One call of \<open>reader.read(buffer)\<close>: it resolves to \<open>null\<close>, or it writes bytes to the
  start of the buffer and resolves to their number, or it rejects.
\<close>

datatype read_result = ReadNull | ReadBytes "nat list" | ReadRejects string

text \<open>
  The colour functions and \<open>stripColor\<close> of \<open>deps.ts\<close>, the glyphs of \<open>figures.ts\<close>,
  \<open>parse\<close> of \<open>keycode/key_code.ts\<close> (it may throw) and the Deno runtime are not part of
  this file: they are parameters. \<open>reads i\<close> is what the \<open>i\<close>-th call of \<open>read\<close>
  resolves to.
\<close>

record deps =
  bold :: "string \<Rightarrow> string"
  brightBlue :: "string \<Rightarrow> string"
  dim :: "string \<Rightarrow> string"
  green :: "string \<Rightarrow> string"
  italic :: "string \<Rightarrow> string"
  red :: "string \<Rightarrow> string"
  stripColor :: "string \<Rightarrow> string"
  yellow :: "string \<Rightarrow> string"
  POINTER_SMALL :: string
  CROSS :: string
  POINTER :: string
  parse :: "nat list \<Rightarrow> string + key_code list"
  isatty :: "nat \<Rightarrow> bool"
  consoleSize :: console_size
  reads :: "nat \<Rightarrow> read_result"

text \<open>A prompt instance in its environment: the settings, the subclass and the imports.\<close>

record ctx =
  the_settings :: settings
  the_widget :: widget
  the_deps :: deps

subsection \<open>State, effects and outcomes\<close>

datatype effect =
    CursorLeft
  | EraseDown
  | CursorShow
  | CursorUp int
  | CursorTo int
  | WriterWriteSync nat string
  | DenoWriteSync nat string
  | SetRaw nat bool "bool option"
  | ReaderRead nat
  | CallSettingsValidate jsval
  | CallValidate jsval
  | CallSettingsTransform jsval
  | CallTransform jsval
  | CallParse "nat list"

text \<open>
  The static slot \<open>GenericPrompt.injectedValue\<close>, the fields of the instance
  (\<open>cursor\<close>, \<open>#value\<close>, \<open>#lastError\<close>, \<open>#isFirstRun\<close>), the raw mode of the reader's
  terminal, the number of reads made so far, and the effects so far.
\<close>

record pstate =
  injectedValue :: jsval
  cursor_x :: int
  cursor_y :: int
  the_value :: jsval
  lastError :: "string option"
  isFirstRun :: bool
  rawMode :: bool
  nreads :: nat
  effects :: "effect list"

text \<open>
  A call returns, throws an \<open>Error\<close> with a message, or ends the process
  (\<open>Deno.exit\<close>) with a status.
\<close>

datatype 'a outcome = Return 'a | Throw string | Exit int

definition emit :: "effect \<Rightarrow> pstate \<Rightarrow> pstate" where
  "emit e p = p\<lparr>effects := effects p @ [e]\<rparr>"

text \<open>Sequencing: the rest of a method runs only when the call before it returned.\<close>

definition bind :: "'a outcome \<times> pstate \<Rightarrow> ('a \<Rightarrow> pstate \<Rightarrow> 'b outcome \<times> pstate) \<Rightarrow> 'b outcome \<times> pstate" where
  "bind m f =
     (case m of
        (Return x, p) \<Rightarrow> f x p
      | (Throw e, p) \<Rightarrow> (Throw e, p)
      | (Exit k, p) \<Rightarrow> (Exit k, p))"

subsection \<open>\<open>inject\<close> and \<open>getDefaultSettings\<close>\<close>

definition inject :: "jsval \<Rightarrow> pstate \<Rightarrow> pstate" where
  "inject v p = p\<lparr>injectedValue := v\<rparr>"

text \<open>\<open>a ?? b\<close> on an optional property.\<close>

fun nullish :: "'a option \<Rightarrow> 'a \<Rightarrow> 'a" where
  "nullish None d = d"
| "nullish (Some a) d = a"

text \<open>\<open>Deno.stdin.rid\<close> is 0 and \<open>Deno.stdout\<close> writes to descriptor 1.\<close>

definition stdin :: nat where
  "stdin = 0"

definition stdout :: nat where
  "stdout = 1"

text \<open>
  The object spread \<open>{ submit: ["enter", "return"], ...(options.keys ?? {}) }\<close>: every
  own property of the caller's object replaces the property of the same name.
\<close>

definition default_keys :: keymap where
  "default_keys = [''submit'' \<mapsto> Some [''enter'', ''return'']]"

definition getDefaultSettings :: "deps \<Rightarrow> options \<Rightarrow> settings" where
  "getDefaultSettings d opts =
     \<lparr> settings.message = options.message opts,
       settings.default = options.default opts,
       settings.hideDefault = options.hideDefault opts,
       settings.validate = options.validate opts,
       settings.transform = options.transform opts,
       settings.hint = options.hint opts,
       settings.pointer = nullish (options.pointer opts) (brightBlue d (POINTER_SMALL d)),
       settings.indent = nullish (options.indent opts) [],
       settings.keys = Some (default_keys ++ nullish (options.keys opts) Map.empty),
       settings.cbreak = nullish (options.cbreak opts) False,
       settings.prefix = nullish (options.prefix opts) (yellow d ''? ''),
       settings.reader = nullish (options.reader opts) stdin,
       settings.writer = nullish (options.writer opts) stdout,
       settings.tty = nullish (options.writer opts) stdout \<rparr>"

subsection \<open>\<open>isKey\<close>\<close>

text \<open>\<open>keys?.[name]\<close>: \<open>undefined\<close> without a key map, without the property, or without a value.\<close>

definition key_names :: "keymap option \<Rightarrow> string \<Rightarrow> string list option" where
  "key_names ks nm =
     (case ks of
        None \<Rightarrow> None
      | Some m \<Rightarrow> (case m nm of None \<Rightarrow> None | Some v \<Rightarrow> v))"

definition isKey :: "keymap option \<Rightarrow> string \<Rightarrow> key_code \<Rightarrow> bool" where
  "isKey ks nm event =
     (case key_names ks nm of
        None \<Rightarrow> False
      | Some keyNames \<Rightarrow>
          (case name event of None \<Rightarrow> False | Some n \<Rightarrow> n \<in> set keyNames) \<or>
          (case sequence event of None \<Rightarrow> False | Some s \<Rightarrow> s \<in> set keyNames))"

subsection \<open>The validation pipeline: \<open>#transformValue\<close> and \<open>#validateValue\<close>\<close>

text \<open>
  The callbacks are functions of their argument. A call is recorded in the effects, so
  that a path that calls no callback is told from one that does.
\<close>

definition transformValue :: "ctx \<Rightarrow> jsval \<Rightarrow> pstate \<Rightarrow> jsval \<times> pstate" where
  "transformValue c v p =
     (case settings.transform (the_settings c) of
        Some f \<Rightarrow> (f v, emit (CallSettingsTransform v) p)
      | None \<Rightarrow> (widget.transform (the_widget c) v, emit (CallTransform v) p))"

text \<open>
  \<open>await (this.settings.validate ? this.settings.validate(value) : this.validate(value))\<close>
\<close>

definition run_validate :: "ctx \<Rightarrow> jsval \<Rightarrow> pstate \<Rightarrow> jsval \<times> pstate" where
  "run_validate c v p =
     (case settings.validate (the_settings c) of
        Some f \<Rightarrow> (f v, emit (CallSettingsValidate v) p)
      | None \<Rightarrow> (widget.validate (the_widget c) v, emit (CallValidate v) p))"

definition validateValue :: "ctx \<Rightarrow> jsval \<Rightarrow> pstate \<Rightarrow> pstate" where
  "validateValue c v p =
     (if \<not> truthy v \<and> settings.default (the_settings c) \<noteq> JUndefined
      then p\<lparr>the_value := settings.default (the_settings c)\<rparr>
      else
        (case run_validate c v (p\<lparr>the_value := JUndefined, lastError := None\<rparr>) of
           (validation, p1) \<Rightarrow>
             if validation = JBool False then p1\<lparr>lastError := Some ''Invalid answer.''\<rparr>
             else
               (case validation of
                  JStr s \<Rightarrow> p1\<lparr>lastError := Some s\<rparr>
                | _ \<Rightarrow>
                    (case transformValue c v p1 of
                       (r, p2) \<Rightarrow> p2\<lparr>the_value := r\<rparr>))))"

subsection \<open>What the prompt prints\<close>

definition defaults :: "ctx \<Rightarrow> string" where
  "defaults c =
     (if settings.default (the_settings c) \<noteq> JUndefined \<and>
         \<not> nullish (settings.hideDefault (the_settings c)) False
      then dim (the_deps c)
             ('' ('' @ widget.format (the_widget c) (settings.default (the_settings c)) @ '')'')
      else [])"

definition message :: "ctx \<Rightarrow> string" where
  "message c =
     settings.indent (the_settings c) @ settings.prefix (the_settings c) @
     bold (the_deps c) (settings.message (the_settings c)) @ defaults c"

definition success :: "ctx \<Rightarrow> jsval \<Rightarrow> string option" where
  "success c v =
     Some (settings.indent (the_settings c) @ settings.prefix (the_settings c) @
       bold (the_deps c) (settings.message (the_settings c)) @ defaults c @
       '' '' @ settings.pointer (the_settings c) @
       '' '' @ green (the_deps c) (widget.format (the_widget c) v))"

definition error :: "ctx \<Rightarrow> pstate \<Rightarrow> string option" where
  "error c p =
     (case lastError p of
        None \<Rightarrow> None
      | Some e \<Rightarrow>
          if e \<noteq> []
          then Some (settings.indent (the_settings c) @
                 red (the_deps c) (bold (the_deps c) (CROSS (the_deps c) @ '' '') @ e))
          else None)"

definition hint :: "ctx \<Rightarrow> string option" where
  "hint c =
     (case settings.hint (the_settings c) of
        None \<Rightarrow> None
      | Some h \<Rightarrow>
          if h \<noteq> []
          then Some (settings.indent (the_settings c) @
                 italic (the_deps c) (brightBlue (the_deps c)
                   (dim (the_deps c) (POINTER (the_deps c) @ '' '') @ h)))
          else None)"

definition footer :: "ctx \<Rightarrow> pstate \<Rightarrow> string option" where
  "footer c p = (case error c p of Some e \<Rightarrow> Some e | None \<Rightarrow> hint c)"

definition setErrorMessage :: "string \<Rightarrow> pstate \<Rightarrow> pstate" where
  "setErrorMessage m p = p\<lparr>lastError := Some m\<rparr>"

text \<open>\<open>clear\<close>: \<open>this.settings.tty.cursorLeft.eraseDown()\<close>.\<close>

definition clear :: "pstate \<Rightarrow> pstate" where
  "clear p = emit EraseDown (emit CursorLeft p)"

subsection \<open>\<open>render\<close> and \<open>getColumns\<close>\<close>

definition newline :: char where
  "newline = CHR 0x0A"

text \<open>
  \<open>result.filter(Boolean)\<close> on strings that may be undefined, then
  \<open>Array.prototype.join("\n")\<close> and \<open>String.prototype.split("\n")\<close>.
\<close>

fun filter_Boolean :: "string option list \<Rightarrow> string list" where
  "filter_Boolean [] = []"
| "filter_Boolean (None # xs) = filter_Boolean xs"
| "filter_Boolean (Some s # xs) = (if s \<noteq> [] then s # filter_Boolean xs else filter_Boolean xs)"

fun join_lines :: "string list \<Rightarrow> string" where
  "join_lines [] = []"
| "join_lines [l] = l"
| "join_lines (l # ls) = l @ newline # join_lines ls"

fun split_lines :: "string \<Rightarrow> string list" where
  "split_lines [] = [[]]"
| "split_lines (ch # cs) =
     (if ch = newline then [] # split_lines cs
      else (case split_lines cs of
              [] \<Rightarrow> [[ch]]
            | l # ls \<Rightarrow> (ch # l) # ls))"

definition getColumns :: "deps \<Rightarrow> nat option" where
  "getColumns d =
     (case consoleSize d of
        ConsoleSizeThrows \<Rightarrow> None
      | ConsoleSize cols \<Rightarrow> cols)"

text \<open>
  The visual lines one logical line takes in \<open>columns\<close> columns: the body of the
  \<open>reduce\<close> callback. Lengths of strings are far below \<open>2^53\<close>, where the floating point
  quotient rounds up to the same integer as the exact one.
\<close>

definition line_height :: "deps \<Rightarrow> nat \<Rightarrow> string \<Rightarrow> nat" where
  "line_height d columns next =
     (let len = length (stripColor d next)
      in if len > columns then nat \<lceil>real len / real columns\<rceil> else 1)"

text \<open>\<open>columns ? lines.reduce(...) : content.split("\n").length\<close>; a width of 0 is falsy.\<close>

definition linesCount :: "deps \<Rightarrow> nat option \<Rightarrow> string \<Rightarrow> nat" where
  "linesCount d columns content =
     (case columns of
        None \<Rightarrow> length (split_lines content)
      | Some w \<Rightarrow>
          if w \<noteq> 0
          then foldl (\<lambda>prev next. prev + line_height d w next) 0 (split_lines content)
          else length (split_lines content))"

definition render_content :: "ctx \<Rightarrow> pstate \<Rightarrow> string" where
  "render_content c p =
     join_lines (filter_Boolean
       [Some (message c),
        (case widget.body (the_widget c) of None \<Rightarrow> None | Some b \<Rightarrow> b),
        footer c p])"

definition render :: "ctx \<Rightarrow> pstate \<Rightarrow> pstate" where
  "render c p =
     (let content = render_content c p;
          y = int (linesCount (the_deps c) (getColumns (the_deps c)) content) - cursor_y p - 1;
          p1 = (if \<not> isFirstRun p \<or> truthy_str (lastError p) then clear p else p);
          p2 = p1\<lparr>isFirstRun := False\<rparr>;
          p3 = emit (DenoWriteSync 1 content) p2;
          p4 = (if y \<noteq> 0 then emit (CursorUp y) p3 else p3)
      in emit (CursorTo (cursor_x p)) p4)"

subsection \<open>Reading keys: \<open>#readChar\<close> and \<open>#readKey\<close>\<close>

definition setRaw :: "nat \<Rightarrow> bool \<Rightarrow> bool option \<Rightarrow> pstate \<Rightarrow> pstate" where
  "setRaw rid mode cbreak_opt p = (emit (SetRaw rid mode cbreak_opt) p)\<lparr>rawMode := mode\<rparr>"

text \<open>
  \<open>reader.read(buffer)\<close> on the 8-byte buffer: the number of bytes read (or \<open>null\<close>) and
  the buffer afterwards. A reader writes no more bytes than the buffer holds.
\<close>

definition reader_read :: "ctx \<Rightarrow> nat list \<Rightarrow> pstate \<Rightarrow> (nat option \<times> nat list) outcome \<times> pstate" where
  "reader_read c buffer p =
     (let p1 = (emit (ReaderRead (settings.reader (the_settings c))) p)\<lparr>nreads := Suc (nreads p)\<rparr>
      in case reads (the_deps c) (nreads p) of
           ReadNull \<Rightarrow> (Return (None, buffer), p1)
         | ReadBytes bs \<Rightarrow>
             (let got = take (length buffer) bs
              in (Return (Some (length got), got @ drop (length got) buffer), p1))
         | ReadRejects e \<Rightarrow> (Throw e, p1))"

definition readChar :: "ctx \<Rightarrow> pstate \<Rightarrow> nat list outcome \<times> pstate" where
  "readChar c p =
     (let buffer = replicate 8 0;
          isTty = isatty (the_deps c) (settings.reader (the_settings c));
          p1 = (if isTty
                then setRaw (settings.reader (the_settings c)) True
                       (Some (settings.cbreak (the_settings c))) p
                else p)
      in bind (reader_read c buffer p1) (\<lambda>(nread, buffer') p2.
           (let p3 = (if isTty then setRaw (settings.reader (the_settings c)) False None p2 else p2)
            in case nread of
                 None \<Rightarrow> (Return buffer', p3)
               | Some n \<Rightarrow> (Return (take n buffer'), p3))))"

definition readKey :: "ctx \<Rightarrow> pstate \<Rightarrow> key_code list outcome \<times> pstate" where
  "readKey c p =
     bind (readChar c p) (\<lambda>data p1.
       if length data \<noteq> 0
       then (case parse (the_deps c) data of
               Inl e \<Rightarrow> (Throw e, emit (CallParse data) p1)
             | Inr events \<Rightarrow> (Return events, emit (CallParse data) p1))
       else (Return [], p1))"

subsection \<open>\<open>submit\<close>, \<open>handleEvent\<close> and \<open>read\<close>\<close>

definition submit :: "ctx \<Rightarrow> pstate \<Rightarrow> unit outcome \<times> pstate" where
  "submit c p = (Return (), validateValue c (widget.getValue (the_widget c)) p)"

definition handleEvent :: "ctx \<Rightarrow> key_code \<Rightarrow> pstate \<Rightarrow> unit outcome \<times> pstate" where
  "handleEvent c event p =
     (if name event = Some ''c'' \<and> ctrl event
      then (Exit 130, emit CursorShow (clear p))
      else if isKey (settings.keys (the_settings c)) ''submit'' event
      then submit c p
      else (Return (), p))"

text \<open>\<open>for (const event of events) { await this.handleEvent(event); }\<close>\<close>

fun handleEvents :: "ctx \<Rightarrow> key_code list \<Rightarrow> pstate \<Rightarrow> unit outcome \<times> pstate" where
  "handleEvents c [] p = (Return (), p)"
| "handleEvents c (event # events) p =
     bind (handleEvent c event p) (\<lambda>u p1. handleEvents c events p1)"

definition read :: "ctx \<Rightarrow> pstate \<Rightarrow> bool outcome \<times> pstate" where
  "read c p =
     (if injectedValue p \<noteq> JUndefined
      then (let p1 = validateValue c (injectedValue p) p
            in (Return (the_value p1 \<noteq> JUndefined), p1))
      else bind (readKey c p) (\<lambda>events p1.
             if length events = 0 then (Return False, p1)
             else bind (handleEvents c events p1) (\<lambda>u p2.
                    (Return (the_value p2 \<noteq> JUndefined), p2))))"

subsection \<open>\<open>#execute\<close> and \<open>prompt\<close>\<close>

text \<open>
  One pass through the body of \<open>#execute\<close>: \<open>Some\<close> of how the call ends, or \<open>None\<close>
  when it ends in the recursive call \<open>return this.#execute()\<close>.
\<close>

definition execute_pass :: "ctx \<Rightarrow> pstate \<Rightarrow> jsval outcome option \<times> pstate" where
  "execute_pass c p =
     (if injectedValue p \<noteq> JUndefined \<and> truthy_str (lastError p)
      then (Some (Throw (nullish (error c p) [])), p)
      else
        (case read c ((render c p)\<lparr>lastError := None\<rparr>) of
           (Throw e, p1) \<Rightarrow> (Some (Throw e), p1)
         | (Exit k, p1) \<Rightarrow> (Some (Exit k), p1)
         | (Return False, p1) \<Rightarrow> (None, p1)
         | (Return True, p1) \<Rightarrow>
             if the_value p1 = JUndefined
             then (Some (Throw ''internal error: failed to read value''), p1)
             else
               (let p2 = clear p1;
                    p3 = (case success c (the_value p1) of
                            None \<Rightarrow> p2
                          | Some successMessage \<Rightarrow>
                              if successMessage \<noteq> []
                              then emit (WriterWriteSync (settings.writer (the_settings c))
                                     (successMessage @ [newline])) p2
                              else p2);
                    p4 = p3\<lparr>injectedValue := JUndefined\<rparr>;
                    p5 = emit CursorShow p4
                in (Some (Return (the_value p5)), p5))))"

text \<open>
  \<open>#execute\<close> calls itself until a pass ends the call. The recursion need not end (an
  input that never submits): \<open>n\<close> bounds the number of passes, and \<open>None\<close> says that
  \<open>n\<close> passes did not end the call.
\<close>

fun execute :: "nat \<Rightarrow> ctx \<Rightarrow> pstate \<Rightarrow> (jsval outcome \<times> pstate) option" where
  "execute 0 c p = None"
| "execute (Suc n) c p =
     (case execute_pass c p of
        (Some r, p1) \<Rightarrow> Some (r, p1)
      | (None, p1) \<Rightarrow> execute n c p1)"

text \<open>
  \<open>prompt\<close>: \<open>try { return await this.#execute(); } finally { cursorShow() }\<close>. The
  \<open>finally\<close> block does not run when the process has exited.
\<close>

definition prompt :: "nat \<Rightarrow> ctx \<Rightarrow> pstate \<Rightarrow> (jsval outcome \<times> pstate) option" where
  "prompt n c p =
     (case execute n c p of
        None \<Rightarrow> None
      | Some (Exit k, p1) \<Rightarrow> Some (Exit k, p1)
      | Some (r, p1) \<Rightarrow> Some (r, emit CursorShow p1))"

text \<open>
  A new instance of a prompt in the same process: its fields start as the class
  initialises them, the static slot and the terminal are as the process left them.
\<close>

definition new_instance :: "pstate \<Rightarrow> pstate" where
  "new_instance p =
     p\<lparr>cursor_x := 0, cursor_y := 0, the_value := JUndefined, lastError := None,
       isFirstRun := True\<rparr>"

subsection \<open>Observations the statements use\<close>

text \<open>What the validator in force returns for a value, and what the transform in force does.\<close>

definition validation_result :: "ctx \<Rightarrow> jsval \<Rightarrow> jsval" where
  "validation_result c v =
     (case settings.validate (the_settings c) of
        Some f \<Rightarrow> f v
      | None \<Rightarrow> widget.validate (the_widget c) v)"

definition transform_result :: "ctx \<Rightarrow> jsval \<Rightarrow> jsval" where
  "transform_result c v =
     (case settings.transform (the_settings c) of
        Some f \<Rightarrow> f v
      | None \<Rightarrow> widget.transform (the_widget c) v)"

text \<open>
  The three readings of a validation result in \<open>#validateValue\<close>: \<open>false\<close> and a
  string are rejections with a message, everything else is accepted.
\<close>

fun rejection :: "jsval \<Rightarrow> string option" where
  "rejection (JBool b) = (if b then None else Some ''Invalid answer.'')"
| "rejection (JStr s) = Some s"
| "rejection r = None"

fun accepted :: "jsval \<Rightarrow> bool" where
  "accepted (JBool b) = b"
| "accepted (JStr s) = False"
| "accepted r = True"

text \<open>The text \<open>error()\<close> builds around an error message.\<close>

definition error_message :: "ctx \<Rightarrow> string \<Rightarrow> string" where
  "error_message c e =
     settings.indent (the_settings c) @
     red (the_deps c) (bold (the_deps c) (CROSS (the_deps c) @ '' '') @ e)"

text \<open>A field is set when it is not \<open>undefined\<close>.\<close>

definition error_set :: "pstate \<Rightarrow> bool" where
  "error_set p = (lastError p \<noteq> None)"

definition value_set :: "pstate \<Rightarrow> bool" where
  "value_set p = (the_value p \<noteq> JUndefined)"

definition exactly_one :: "pstate \<Rightarrow> bool" where
  "exactly_one p = (error_set p \<noteq> value_set p)"

subsection \<open>A concrete prompt\<close>

text \<open>
  Stand-ins for the imports: colours switched off, ASCII glyphs, a decoder that knows
  return (13) and ctrl+c (3), a terminal of 80 columns, and a reader that delivers one
  return key per read.
\<close>

definition ex_key :: "nat \<Rightarrow> key_code" where
  "ex_key b =
     (if b = 13
      then \<lparr>name = Some ''return'', sequence = Some [CHR 0x0D], ctrl = False, meta = False,
             shift = False\<rparr>
      else if b = 3
      then \<lparr>name = Some ''c'', sequence = Some [CHR 0x03], ctrl = True, meta = False,
             shift = False\<rparr>
      else \<lparr>name = None, sequence = None, ctrl = False, meta = False, shift = False\<rparr>)"

definition ex_deps :: deps where
  "ex_deps =
     \<lparr> bold = (\<lambda>s. s), brightBlue = (\<lambda>s. s), dim = (\<lambda>s. s), green = (\<lambda>s. s),
       italic = (\<lambda>s. s), red = (\<lambda>s. s), stripColor = (\<lambda>s. s), yellow = (\<lambda>s. s),
       POINTER_SMALL = ''>'', CROSS = ''x'', POINTER = ''>'',
       parse = (\<lambda>bs. Inr (map ex_key bs)),
       isatty = (\<lambda>rid. True),
       consoleSize = ConsoleSize (Some 80),
       reads = (\<lambda>i. ReadBytes [13]) \<rparr>"

definition ex_options :: options where
  "ex_options =
     \<lparr> options.message = ''Name'', options.default = JUndefined, options.hideDefault = None,
       options.validate = None, options.transform = None, options.hint = None,
       options.pointer = None, options.indent = None, options.keys = None,
       options.cbreak = None, options.prefix = None, options.reader = None,
       options.writer = None \<rparr>"

definition ex_widget :: widget where
  "ex_widget =
     \<lparr> widget.transform = (\<lambda>v. v),
       widget.validate = (\<lambda>v. JBool True),
       widget.format = (\<lambda>v. case v of JStr s \<Rightarrow> s | _ \<Rightarrow> []),
       widget.getValue = JStr ''a'',
       widget.body = None \<rparr>"

definition ex_ctx :: "options \<Rightarrow> widget \<Rightarrow> ctx" where
  "ex_ctx opts w =
     \<lparr> the_settings = getDefaultSettings ex_deps opts, the_widget = w, the_deps = ex_deps \<rparr>"

text \<open>The example prompt with a caller-supplied validator.\<close>

definition injected_ctx :: "(jsval \<Rightarrow> jsval) \<Rightarrow> ctx" where
  "injected_ctx f = ex_ctx (ex_options\<lparr>options.validate := Some f\<rparr>) ex_widget"

text \<open>The state of a new prompt in a new process.\<close>

definition fresh :: pstate where
  "fresh =
     \<lparr> injectedValue = JUndefined, cursor_x = 0, cursor_y = 0, the_value = JUndefined,
       lastError = None, isFirstRun = True, rawMode = False, nreads = 0, effects = [] \<rparr>"

text \<open>An enter key and the interrupt key, as the key decoder reports them.\<close>

definition enter_key :: key_code where
  "enter_key =
     \<lparr>name = Some ''enter'', sequence = Some [CHR 0x0A], ctrl = False, meta = False, shift = False\<rparr>"

definition ctrl_c :: key_code where
  "ctrl_c = ex_key 3"

text \<open>The example prompt on a reader whose every read resolves or rejects the same way.\<close>

definition reading_ctx :: "read_result \<Rightarrow> ctx" where
  "reading_ctx r = (ex_ctx ex_options ex_widget)\<lparr>the_deps := ex_deps\<lparr>reads := (\<lambda>i. r)\<rparr>\<rparr>"

text \<open>A terminal of \<open>w\<close> columns, and output that is no terminal.\<close>

definition narrow_deps :: "nat \<Rightarrow> deps" where
  "narrow_deps w = ex_deps\<lparr>consoleSize := ConsoleSize (Some w)\<rparr>"

definition blind_deps :: deps where
  "blind_deps = ex_deps\<lparr>consoleSize := ConsoleSizeThrows\<rparr>"

text \<open>Three logical lines of 7, 0 and 3 characters.\<close>

definition three_lines :: string where
  "three_lines = ''abcdefg'' @ [newline, newline] @ ''abc''"

section \<open>Properties\<close>

lemmas ex_defs = ex_ctx_def ex_options_def ex_widget_def ex_deps_def fresh_def
  getDefaultSettings_def injected_ctx_def

lemmas run_defs = execute_pass_def read_def validateValue_def run_validate_def transformValue_def
  render_def render_content_def message_def defaults_def footer_def error_def hint_def success_def
  linesCount_def line_height_def getColumns_def clear_def emit_def inject_def
  newline_def stdout_def stdin_def Let_def

lemmas read_defs = readKey_def readChar_def reader_read_def bind_def setRaw_def emit_def Let_def
  reading_ctx_def stdin_def stdout_def

subsection \<open>The validation pipeline\<close>

lemma run_validate_eq:
  "run_validate c v p =
     (validation_result c v,
      emit (case settings.validate (the_settings c) of
              Some f \<Rightarrow> CallSettingsValidate v | None \<Rightarrow> CallValidate v) p)"
  by (simp add: run_validate_def validation_result_def split: option.splits)

lemma transformValue_eq:
  "transformValue c v p =
     (transform_result c v,
      emit (case settings.transform (the_settings c) of
              Some f \<Rightarrow> CallSettingsTransform v | None \<Rightarrow> CallTransform v) p)"
  by (simp add: transformValue_def transform_result_def split: option.splits)

text \<open>The pipeline past the default short-circuit, one branch per kind of validation result.\<close>

lemma validateValue_checked:
  assumes "truthy v \<or> settings.default (the_settings c) = JUndefined"
  shows "validateValue c v p =
     (let p1 = emit (case settings.validate (the_settings c) of
                       Some f \<Rightarrow> CallSettingsValidate v | None \<Rightarrow> CallValidate v)
                 (p\<lparr>the_value := JUndefined, lastError := None\<rparr>)
      in case validation_result c v of
           JBool b \<Rightarrow>
             if b then (emit (case settings.transform (the_settings c) of
                          Some f \<Rightarrow> CallSettingsTransform v | None \<Rightarrow> CallTransform v) p1)
                        \<lparr>the_value := transform_result c v\<rparr>
             else p1\<lparr>lastError := Some ''Invalid answer.''\<rparr>
         | JStr s \<Rightarrow> p1\<lparr>lastError := Some s\<rparr>
         | _ \<Rightarrow> (emit (case settings.transform (the_settings c) of
                          Some f \<Rightarrow> CallSettingsTransform v | None \<Rightarrow> CallTransform v) p1)
                        \<lparr>the_value := transform_result c v\<rparr>)"
  using assms
  by (auto simp add: validateValue_def run_validate_eq transformValue_eq Let_def split: jsval.splits)

lemma validateValue_forgets_error:
  assumes "truthy v \<or> settings.default (the_settings c) = JUndefined"
  shows "validateValue c v (p\<lparr>lastError := e\<rparr>) = validateValue c v p"
  by (cases "validation_result c v")
     (simp_all add: validateValue_checked [OF assms] Let_def emit_def)

lemma validateValue_rejected:
  assumes "truthy v \<or> settings.default (the_settings c) = JUndefined"
    and "rejection (validation_result c v) = Some e"
  shows "lastError (validateValue c v p) = Some e \<and> the_value (validateValue c v p) = JUndefined"
  using assms(2)
  by (cases "validation_result c v")
     (simp_all add: validateValue_checked [OF assms(1)] Let_def emit_def split: if_splits)

text \<open>
  C1, as the code has it. A run of \<open>#validateValue\<close> that does not take the default
  short-circuit forgets the error of the attempt before it and leaves at most one of
  error and value set; exactly one is set unless the validator accepted the value and
  the transform returned \<open>undefined\<close>, and then neither is. A run that takes the default
  short-circuit with no error pending leaves the value set and no error.
\<close>

theorem validateValue_error_or_value:
  "(truthy v \<or> settings.default (the_settings c) = JUndefined \<longrightarrow>
      lastError (validateValue c v p) = lastError (validateValue c v (p\<lparr>lastError := None\<rparr>)) \<and>
      \<not> (error_set (validateValue c v p) \<and> value_set (validateValue c v p)) \<and>
      exactly_one (validateValue c v p) =
        (\<not> (accepted (validation_result c v) \<and> transform_result c v = JUndefined))) \<and>
   (\<not> truthy v \<and> settings.default (the_settings c) \<noteq> JUndefined \<and> lastError p = None \<longrightarrow>
      value_set (validateValue c v p) \<and> \<not> error_set (validateValue c v p))"
proof (intro conjI impI)
  assume a: "truthy v \<or> settings.default (the_settings c) = JUndefined"
  show "lastError (validateValue c v p) = lastError (validateValue c v (p\<lparr>lastError := None\<rparr>))"
    by (simp add: validateValue_forgets_error [OF a])
  show "\<not> (error_set (validateValue c v p) \<and> value_set (validateValue c v p))"
    by (cases "validation_result c v")
       (simp_all add: validateValue_checked [OF a] Let_def emit_def error_set_def value_set_def)
  show "exactly_one (validateValue c v p) =
        (\<not> (accepted (validation_result c v) \<and> transform_result c v = JUndefined))"
    by (cases "validation_result c v")
       (auto simp add: validateValue_checked [OF a] Let_def emit_def error_set_def value_set_def
          exactly_one_def)
next
  assume b: "\<not> truthy v \<and> settings.default (the_settings c) \<noteq> JUndefined \<and> lastError p = None"
  then show "value_set (validateValue c v p)"
    by (simp add: validateValue_def value_set_def)
  from b show "\<not> error_set (validateValue c v p)"
    by (simp add: validateValue_def error_set_def)
qed

text \<open>
  The amended C1 at work: the value \<open>"a"\<close> with an old error pending is accepted and
  the old error is gone; the empty value with the default \<open>"Ann"\<close> and no error pending
  resolves to the default.
\<close>

theorem validateValue_error_or_value_witness:
  "truthy (JStr ''a'') \<and>
   exactly_one (validateValue (ex_ctx ex_options ex_widget) (JStr ''a'')
     (fresh\<lparr>lastError := Some ''old''\<rparr>)) \<and>
   lastError (validateValue (ex_ctx ex_options ex_widget) (JStr ''a'')
     (fresh\<lparr>lastError := Some ''old''\<rparr>)) = None \<and>
   \<not> truthy (JStr []) \<and>
   value_set (validateValue (ex_ctx (ex_options\<lparr>options.default := JStr ''Ann''\<rparr>) ex_widget)
     (JStr []) fresh)"
proof -
  let ?c = "ex_ctx ex_options ex_widget"
  let ?d = "ex_ctx (ex_options\<lparr>options.default := JStr ''Ann''\<rparr>) ex_widget"
  let ?p = "fresh\<lparr>lastError := Some ''old''\<rparr>"
  have t: "truthy (JStr ''a'')" by simp
  have r: "accepted (validation_result ?c (JStr ''a''))"
    "transform_result ?c (JStr ''a'') = JStr ''a''"
    by (simp_all add: validation_result_def transform_result_def ex_defs)
  have n: "lastError (validateValue ?c (JStr ''a'') (?p\<lparr>lastError := None\<rparr>)) = None"
    by (simp add: run_defs ex_defs)
  have h: "\<not> truthy (JStr [])" "settings.default (the_settings ?d) \<noteq> JUndefined"
    "lastError fresh = None"
    by (simp_all add: ex_defs)
  from validateValue_error_or_value [of "JStr ''a''" ?c ?p] t r n
  have "exactly_one (validateValue ?c (JStr ''a'') ?p) \<and>
        lastError (validateValue ?c (JStr ''a'') ?p) = None"
    by simp
  moreover from validateValue_error_or_value [of "JStr []" ?d fresh] h
  have "value_set (validateValue ?d (JStr []) fresh)"
    by blast
  ultimately show ?thesis using t h(1) by blast
qed

text \<open>
  C1 as the claim states it fails twice. A transform that returns \<open>undefined\<close> on an
  accepted value leaves neither error nor value set; and the default short-circuit
  returns before the error of an earlier attempt is cleared, which leaves both set.
\<close>

theorem validateValue_exactly_one_counterexample:
  "\<not> exactly_one (validateValue
        (ex_ctx ex_options (ex_widget\<lparr>widget.transform := (\<lambda>v. JUndefined)\<rparr>)) (JStr ''a'') fresh) \<and>
   \<not> exactly_one (validateValue
        (ex_ctx (ex_options\<lparr>options.default := JStr ''Ann''\<rparr>) ex_widget) (JStr [])
        (fresh\<lparr>lastError := Some ''too short''\<rparr>))"
  by (simp add: validateValue_def run_validate_def transformValue_def exactly_one_def
      error_set_def value_set_def emit_def ex_defs)

text \<open>
  C2. With a default configured and a falsy raw value (empty, \<open>undefined\<close>, \<open>null\<close>),
  \<open>#validateValue\<close> stores the default as the value and changes nothing else: no
  validator and no transform is called, so the effects are what they were.
\<close>

theorem validateValue_default:
  assumes "\<not> truthy v" and "settings.default (the_settings c) \<noteq> JUndefined"
  shows "validateValue c v p = p\<lparr>the_value := settings.default (the_settings c)\<rparr> \<and>
         the_value (validateValue c v p) = settings.default (the_settings c) \<and>
         effects (validateValue c v p) = effects p"
  using assms by (simp add: validateValue_def)

text \<open>The scenario of the specification: default \<open>"Ann"\<close>, raw input \<open>""\<close>.\<close>

theorem validateValue_default_witness:
  "\<not> truthy (JStr []) \<and>
   the_value (validateValue (ex_ctx (ex_options\<lparr>options.default := JStr ''Ann''\<rparr>) ex_widget)
     (JStr []) fresh) = JStr ''Ann'' \<and>
   effects (validateValue (ex_ctx (ex_options\<lparr>options.default := JStr ''Ann''\<rparr>) ex_widget)
     (JStr []) fresh) = []"
proof -
  let ?d = "ex_ctx (ex_options\<lparr>options.default := JStr ''Ann''\<rparr>) ex_widget"
  have h: "\<not> truthy (JStr [])" "settings.default (the_settings ?d) \<noteq> JUndefined"
    by (simp_all add: ex_defs)
  have d: "settings.default (the_settings ?d) = JStr ''Ann''" "effects fresh = []"
    by (simp_all add: ex_defs)
  from validateValue_default [OF h, of fresh] d h(1) show ?thesis by simp
qed

text \<open>
  C3. Past the default short-circuit, a validation result \<open>false\<close> records the error
  \<open>"Invalid answer."\<close>, a string is recorded as the error as it is, and on every other
  result the transform in force (the caller's if there is one, else the prompt's own)
  is the last call made and its result is the value.
\<close>

theorem validateValue_tri_state:
  assumes "truthy v \<or> settings.default (the_settings c) = JUndefined"
  shows "(validation_result c v = JBool False \<longrightarrow>
            lastError (validateValue c v p) = Some ''Invalid answer.'' \<and>
            the_value (validateValue c v p) = JUndefined) \<and>
         (\<forall>s. validation_result c v = JStr s \<longrightarrow>
            lastError (validateValue c v p) = Some s \<and>
            the_value (validateValue c v p) = JUndefined) \<and>
         (accepted (validation_result c v) \<longrightarrow>
            the_value (validateValue c v p) = transform_result c v \<and>
            lastError (validateValue c v p) = None \<and>
            last (effects (validateValue c v p)) =
              (case settings.transform (the_settings c) of
                 Some f \<Rightarrow> CallSettingsTransform v
               | None \<Rightarrow> CallTransform v))"
  by (cases "validation_result c v")
     (simp_all add: validateValue_checked [OF assms] Let_def emit_def)

text \<open>
  The three cases on the input \<open>"a"\<close>: a validator that answers \<open>"too short"\<close>, one that
  answers \<open>false\<close>, and one that accepts.
\<close>

theorem validateValue_tri_state_witness:
  "lastError (validateValue (injected_ctx (\<lambda>v. JStr ''too short'')) (JStr ''a'') fresh) =
     Some ''too short'' \<and>
   lastError (validateValue (injected_ctx (\<lambda>v. JBool False)) (JStr ''a'') fresh) =
     Some ''Invalid answer.'' \<and>
   the_value (validateValue (ex_ctx ex_options ex_widget) (JStr ''a'') fresh) = JStr ''a''"
proof -
  let ?c1 = "injected_ctx (\<lambda>v. JStr ''too short'')"
  let ?c2 = "injected_ctx (\<lambda>v. JBool False)"
  let ?c3 = "ex_ctx ex_options ex_widget"
  have t: "truthy (JStr ''a'')" by simp
  have r1: "validation_result ?c1 (JStr ''a'') = JStr ''too short''"
    by (simp add: validation_result_def ex_defs)
  have r2: "validation_result ?c2 (JStr ''a'') = JBool False"
    by (simp add: validation_result_def ex_defs)
  have r3: "accepted (validation_result ?c3 (JStr ''a''))"
    by (simp add: validation_result_def ex_defs)
  have r4: "transform_result ?c3 (JStr ''a'') = JStr ''a''"
    by (simp add: transform_result_def ex_defs)
  from validateValue_tri_state [of "JStr ''a''" ?c1 fresh] t r1
  have "lastError (validateValue ?c1 (JStr ''a'') fresh) = Some ''too short''" by blast
  moreover from validateValue_tri_state [of "JStr ''a''" ?c2 fresh] t r2
  have "lastError (validateValue ?c2 (JStr ''a'') fresh) = Some ''Invalid answer.''" by blast
  moreover from validateValue_tri_state [of "JStr ''a''" ?c3 fresh] t r3 r4
  have "the_value (validateValue ?c3 (JStr ''a'') fresh) = JStr ''a''" by simp
  ultimately show ?thesis by blast
qed

subsection \<open>The execute loop and the injected value\<close>

lemma injectedValue_emit [simp]: "injectedValue (emit e p) = injectedValue p"
  by (simp add: emit_def)

lemma injectedValue_clear [simp]: "injectedValue (clear p) = injectedValue p"
  by (simp add: clear_def)

lemma injectedValue_render [simp]: "injectedValue (render c p) = injectedValue p"
  by (simp add: render_def Let_def)

lemma injectedValue_validateValue [simp]: "injectedValue (validateValue c v p) = injectedValue p"
  by (simp add: validateValue_def run_validate_def transformValue_def
      split: option.splits jsval.splits prod.splits)

text \<open>One pass with an injected value: the replay guard, and a rejected value.\<close>

lemma execute_pass_replay:
  assumes "injectedValue p \<noteq> JUndefined" and "lastError p = Some e" and "e \<noteq> []"
  shows "execute_pass c p = (Some (Throw (error_message c e)), p)"
  using assms by (simp add: execute_pass_def error_def error_message_def)

lemma execute_pass_injected_rejected:
  assumes "injectedValue p \<noteq> JUndefined" and "\<not> truthy_str (lastError p)"
    and "truthy (injectedValue p) \<or> settings.default (the_settings c) = JUndefined"
    and "rejection (validation_result c (injectedValue p)) = Some e"
  shows "execute_pass c p =
           (None, validateValue c (injectedValue p) ((render c p)\<lparr>lastError := None\<rparr>))"
  using assms(1,2) validateValue_rejected [OF assms(3,4), of "(render c p)\<lparr>lastError := None\<rparr>"]
  by (simp add: execute_pass_def read_def Let_def)

text \<open>
  Where the guard at the entry of \<open>#execute\<close> does what the comment above it says
  (\<open>Throw errors on unit tests\<close>): with a value in the injected slot and a message
  \<open>e\<close> that is not the empty string, an error \<open>e\<close> pending at the entry is thrown at
  once, and a rejection of the injected value with \<open>e\<close> is thrown by the second pass.
\<close>

lemma execute_replay_guard_fires:
  assumes "injectedValue p \<noteq> JUndefined" and "e \<noteq> []"
  shows "(lastError p = Some e \<longrightarrow>
            execute (Suc n) c p = Some (Throw (error_message c e), p)) \<and>
         (\<not> truthy_str (lastError p) \<and>
          (truthy (injectedValue p) \<or> settings.default (the_settings c) = JUndefined) \<and>
          rejection (validation_result c (injectedValue p)) = Some e \<longrightarrow>
            execute (Suc (Suc n)) c p =
              Some (Throw (error_message c e),
                    validateValue c (injectedValue p) ((render c p)\<lparr>lastError := None\<rparr>)))"
proof (intro conjI impI)
  assume "lastError p = Some e"
  with assms show "execute (Suc n) c p = Some (Throw (error_message c e), p)"
    by (simp add: execute_pass_replay)
next
  let ?p1 = "validateValue c (injectedValue p) ((render c p)\<lparr>lastError := None\<rparr>)"
  assume h: "\<not> truthy_str (lastError p) \<and>
          (truthy (injectedValue p) \<or> settings.default (the_settings c) = JUndefined) \<and>
          rejection (validation_result c (injectedValue p)) = Some e"
  then have first: "execute_pass c p = (None, ?p1)"
    using assms(1) by (simp add: execute_pass_injected_rejected)
  have "lastError ?p1 = Some e"
    using h validateValue_rejected [of "injectedValue p" c e] by blast
  moreover have "injectedValue ?p1 \<noteq> JUndefined"
    using assms(1) by simp
  ultimately have "execute_pass c ?p1 = (Some (Throw (error_message c e)), ?p1)"
    using assms(2) by (simp add: execute_pass_replay)
  with first show "execute (Suc (Suc n)) c p = Some (Throw (error_message c e), ?p1)"
    by simp
qed

text \<open>
  Where the guard misses: a rejection with the empty string. \<open>#validateValue\<close> records
  it as the error and leaves the value unset, the guard tests the error for truthiness,
  and every pass ends in the recursive call: no number of passes ends the call.
\<close>

lemma execute_empty_rejection_loops:
  assumes "injectedValue p \<noteq> JUndefined" and "\<not> truthy_str (lastError p)"
    and "truthy (injectedValue p) \<or> settings.default (the_settings c) = JUndefined"
    and "rejection (validation_result c (injectedValue p)) = Some []"
  shows "execute n c p = None"
  using assms
proof (induction n arbitrary: p)
  case 0
  then show ?case by simp
next
  case (Suc n)
  let ?p1 = "validateValue c (injectedValue p) ((render c p)\<lparr>lastError := None\<rparr>)"
  have pass: "execute_pass c p = (None, ?p1)"
    using Suc.prems by (rule execute_pass_injected_rejected)
  have "lastError ?p1 = Some []"
    using validateValue_rejected [OF Suc.prems(3,4)] by blast
  then have quiet: "\<not> truthy_str (lastError ?p1)" by simp
  have "execute n c ?p1 = None"
  proof (rule Suc.IH)
    show "injectedValue ?p1 \<noteq> JUndefined"
      using Suc.prems(1) by simp
    show "\<not> truthy_str (lastError ?p1)"
      by (rule quiet)
    show "truthy (injectedValue ?p1) \<or> settings.default (the_settings c) = JUndefined"
      using Suc.prems(3) by simp
    show "rejection (validation_result c (injectedValue ?p1)) = Some []"
      using Suc.prems(4) by simp
  qed
  with pass show ?case by simp
qed

text \<open>
  C4. The code breaks the claim at the injected value \<open>"a"\<close> under a validator that
  answers \<open>""\<close>. The first pass records the error \<open>""\<close>, with the value unset and
  the slot still full; the second pass does not throw but ends in the recursive call
  again; and the call never ends, whatever the number \<open>n\<close> of passes it is given.
\<close>

theorem execute_replay_empty_error_loops:
  "lastError (snd (execute_pass (injected_ctx (\<lambda>v. JStr [])) (inject (JStr ''a'') fresh))) = Some [] \<and>
   the_value (snd (execute_pass (injected_ctx (\<lambda>v. JStr [])) (inject (JStr ''a'') fresh))) = JUndefined \<and>
   injectedValue (snd (execute_pass (injected_ctx (\<lambda>v. JStr [])) (inject (JStr ''a'') fresh))) = JStr ''a'' \<and>
   fst (execute_pass (injected_ctx (\<lambda>v. JStr []))
          (snd (execute_pass (injected_ctx (\<lambda>v. JStr [])) (inject (JStr ''a'') fresh)))) = None \<and>
   execute n (injected_ctx (\<lambda>v. JStr [])) (inject (JStr ''a'') fresh) = None"
proof -
  let ?c = "injected_ctx (\<lambda>v. JStr [])"
  let ?p = "inject (JStr ''a'') fresh"
  have h: "injectedValue ?p \<noteq> JUndefined" "\<not> truthy_str (lastError ?p)"
    "truthy (injectedValue ?p) \<or> settings.default (the_settings ?c) = JUndefined"
    "rejection (validation_result ?c (injectedValue ?p)) = Some []"
    by (simp_all add: inject_def validation_result_def ex_defs)
  have "execute n ?c ?p = None"
    using h by (rule execute_empty_rejection_loops)
  moreover have "lastError (snd (execute_pass ?c ?p)) = Some [] \<and>
     the_value (snd (execute_pass ?c ?p)) = JUndefined \<and>
     injectedValue (snd (execute_pass ?c ?p)) = JStr ''a'' \<and>
     fst (execute_pass ?c (snd (execute_pass ?c ?p))) = None"
    by (simp add: run_defs ex_defs)
  ultimately show ?thesis by blast
qed

text \<open>A pass that returns a value has cleared the slot on its way.\<close>

lemma execute_pass_Return:
  assumes "execute_pass c p = (Some (Return v), p')"
  shows "injectedValue p' = JUndefined \<and> the_value p' = v \<and> v \<noteq> JUndefined"
  using assms
  by (auto simp add: execute_pass_def Let_def emit_def clear_def
      split: if_splits prod.splits outcome.splits bool.splits option.splits)

lemma execute_Return:
  "execute n c p = Some (Return v, p') \<Longrightarrow> injectedValue p' = JUndefined \<and> v \<noteq> JUndefined"
proof (induction n arbitrary: p)
  case 0
  then show ?case by simp
next
  case (Suc n)
  show ?case
  proof (cases "execute_pass c p")
    case (Pair r p1)
    show ?thesis
    proof (cases r)
      case None
      with Pair Suc.prems have "execute n c p1 = Some (Return v, p')" by simp
      then show ?thesis by (rule Suc.IH)
    next
      case (Some res)
      with Pair Suc.prems have "execute_pass c p = (Some (Return v), p')" by simp
      then show ?thesis
        using execute_pass_Return [of c p v p'] by simp
    qed
  qed
qed

text \<open>
  C5, as the code has it. When a call of \<open>prompt\<close> returns a value, the injected slot
  is \<open>undefined\<close> afterwards, and so it is for the next instance of a prompt, whatever
  the number of passes the call took.
\<close>

theorem prompt_success_clears_slot:
  assumes "prompt n c p = Some (Return v, p')"
  shows "injectedValue p' = JUndefined \<and> injectedValue (new_instance p') = JUndefined \<and>
         v \<noteq> JUndefined"
proof -
  from assms obtain p1 where e: "execute n c p = Some (Return v, p1)" and p': "p' = emit CursorShow p1"
    by (auto simp add: prompt_def split: option.splits prod.splits outcome.splits)
  from execute_Return [OF e] p' show ?thesis
    by (simp add: new_instance_def)
qed

text \<open>An injected \<open>"a"\<close> that the validator accepts: the call returns it and the slot is empty.\<close>

theorem prompt_success_clears_slot_witness:
  "prompt (Suc 0) (injected_ctx (\<lambda>v. JBool True)) (inject (JStr ''a'') fresh) =
     Some (Return (JStr ''a''),
       snd (the (prompt (Suc 0) (injected_ctx (\<lambda>v. JBool True)) (inject (JStr ''a'') fresh)))) \<and>
   injectedValue (inject (JStr ''a'') fresh) = JStr ''a'' \<and>
   injectedValue
     (snd (the (prompt (Suc 0) (injected_ctx (\<lambda>v. JBool True)) (inject (JStr ''a'') fresh)))) =
     JUndefined"
proof -
  let ?c = "injected_ctx (\<lambda>v. JBool True)"
  let ?p = "inject (JStr ''a'') fresh"
  have r: "prompt (Suc 0) ?c ?p = Some (Return (JStr ''a''), snd (the (prompt (Suc 0) ?c ?p)))"
    by (simp add: prompt_def run_defs ex_defs)
  have i: "injectedValue ?p = JStr ''a''" by (simp add: inject_def)
  from prompt_success_clears_slot [OF r] r i show ?thesis by blast
qed

text \<open>
  C5 as the claim states it fails on the fatal replay error: the \<open>throw\<close> at the entry
  of \<open>#execute\<close> leaves the slot as it is, and only the success path assigns
  \<open>undefined\<close> to it. After the failed call the slot still holds \<open>"a"\<close>, and the next
  prompt, which nothing was injected for, resolves to that stale \<open>"a"\<close> without a read.
\<close>

theorem slot_after_replay_error_counterexample:
  "(case prompt 2 (injected_ctx (\<lambda>v. JBool False)) (inject (JStr ''a'') fresh) of
      Some (Throw e, p) \<Rightarrow>
        e = ''x Invalid answer.'' \<and> injectedValue p = JStr ''a'' \<and>
        map_option fst (prompt 1 (ex_ctx ex_options ex_widget) (new_instance p)) =
          Some (Return (JStr ''a''))
    | _ \<Rightarrow> False)"
  by (simp add: prompt_def run_defs ex_defs new_instance_def numeral_2_eq_2)

subsection \<open>Counting the rendered lines\<close>

lemma foldl_plus_sum_list:
  "foldl (\<lambda>prev next. prev + f next) a xs = a + sum_list (map f xs)"
  by (induction xs arbitrary: a) (simp_all add: add.assoc)

lemma line_height_cases:
  assumes "0 < w"
  shows "line_height d w l =
           (if length (stripColor d l) = 0 then 1
            else nat \<lceil>real (length (stripColor d l)) / real w\<rceil>)"
proof (cases "w < length (stripColor d l)")
  case True
  with assms show ?thesis by (auto simp add: line_height_def Let_def)
next
  case False
  show ?thesis
  proof (cases "length (stripColor d l) = 0")
    case True
    then show ?thesis by (simp add: line_height_def Let_def)
  next
    case nz: False
    let ?n = "length (stripColor d l)"
    from False nz assms have "0 < real ?n / real w" "real ?n / real w \<le> 1"
      by simp_all
    then have "\<lceil>real ?n / real w\<rceil> = 1"
      by (simp add: ceiling_eq_iff)
    with False nz show ?thesis by (simp add: line_height_def Let_def)
  qed
qed

text \<open>
  C6. With \<open>w\<close> columns known (and not 0), the line count of \<open>render\<close> is the sum
  over the logical lines of the content, a line of printable length \<open>L\<close> counting
  \<open>ceil(L / w)\<close> when \<open>L > w\<close> and 1 otherwise; this is 1 for \<open>L = 0\<close> and
  \<open>ceil(L / w)\<close> for every \<open>L > 0\<close>. When the columns are unknown, as they are when
  \<open>Deno.consoleSize\<close> throws, the count is the number of logical lines.
\<close>

theorem linesCount_wrapped:
  "(getColumns d = Some w \<and> 0 < w \<longrightarrow>
      linesCount d (getColumns d) content =
        (\<Sum>l\<leftarrow>split_lines content.
           if w < length (stripColor d l)
           then nat \<lceil>real (length (stripColor d l)) / real w\<rceil>
           else 1) \<and>
      (\<forall>l. line_height d w l =
             (if length (stripColor d l) = 0 then 1
              else nat \<lceil>real (length (stripColor d l)) / real w\<rceil>))) \<and>
   (getColumns d = None \<longrightarrow>
      linesCount d (getColumns d) content = length (split_lines content)) \<and>
   (consoleSize d = ConsoleSizeThrows \<or> consoleSize d = ConsoleSize None \<longrightarrow>
      getColumns d = None)"
proof (intro conjI impI allI)
  assume a: "getColumns d = Some w \<and> 0 < w"
  then show "linesCount d (getColumns d) content =
        (\<Sum>l\<leftarrow>split_lines content.
           if w < length (stripColor d l)
           then nat \<lceil>real (length (stripColor d l)) / real w\<rceil>
           else 1)"
    by (simp add: linesCount_def foldl_plus_sum_list line_height_def Let_def)
  fix l
  from a show "line_height d w l =
             (if length (stripColor d l) = 0 then 1
              else nat \<lceil>real (length (stripColor d l)) / real w\<rceil>)"
    by (simp add: line_height_cases)
next
  assume "getColumns d = None"
  then show "linesCount d (getColumns d) content = length (split_lines content)"
    by (simp add: linesCount_def)
next
  assume "consoleSize d = ConsoleSizeThrows \<or> consoleSize d = ConsoleSize None"
  then show "getColumns d = None" by (auto simp add: getColumns_def)
qed

text \<open>
  Seven characters, an empty line and three characters in 3 columns take 3 + 1 + 1
  lines; without a width they are 3 lines.
\<close>

theorem linesCount_wrapped_witness:
  "getColumns (narrow_deps 3) = Some 3 \<and>
   linesCount (narrow_deps 3) (getColumns (narrow_deps 3)) three_lines = 5 \<and>
   getColumns blind_deps = None \<and>
   linesCount blind_deps (getColumns blind_deps) three_lines = 3"
proof -
  have g: "getColumns (narrow_deps 3) = Some 3" "(0::nat) < 3"
    by (simp_all add: getColumns_def narrow_deps_def ex_deps_def)
  have b: "consoleSize blind_deps = ConsoleSizeThrows"
    by (simp add: blind_deps_def ex_deps_def)
  have l: "split_lines three_lines = [''abcdefg'', [], ''abc'']"
    by (simp add: three_lines_def newline_def)
  have s: "stripColor (narrow_deps 3) = (\<lambda>s. s)"
    by (simp add: narrow_deps_def ex_deps_def)
  from linesCount_wrapped [of "narrow_deps 3" 3 three_lines] g
  have "linesCount (narrow_deps 3) (getColumns (narrow_deps 3)) three_lines = 5"
    by (simp add: l s)
  moreover from linesCount_wrapped [of blind_deps 3 three_lines] b
  have "getColumns blind_deps = None \<and> linesCount blind_deps (getColumns blind_deps) three_lines = 3"
    by (simp add: l)
  ultimately show ?thesis using g(1) by blast
qed

subsection \<open>Key bindings\<close>

lemma isKey_names:
  "isKey ks nm event =
     (\<exists>keyNames. key_names ks nm = Some keyNames \<and>
        ((\<exists>n. name event = Some n \<and> n \<in> set keyNames) \<or>
         (\<exists>s. sequence event = Some s \<and> s \<in> set keyNames)))"
  by (auto simp add: isKey_def split: option.splits)

text \<open>
  C7. A \<open>submit\<close> property of the caller's \<open>keys\<close> replaces the default binding:
  the names bound to submit are the caller's list alone, and an event matches the
  binding just when its name or its sequence is in that list. Without a \<open>keys\<close>
  option, or without a \<open>submit\<close> property in it, the names are \<open>enter\<close> and
  \<open>return\<close>.
\<close>

theorem keys_override_replaces:
  "(options.keys opts = Some m \<and> m ''submit'' = Some (Some ks) \<longrightarrow>
      key_names (settings.keys (getDefaultSettings d opts)) ''submit'' = Some ks \<and>
      isKey (settings.keys (getDefaultSettings d opts)) ''submit'' event =
        ((\<exists>n. name event = Some n \<and> n \<in> set ks) \<or>
         (\<exists>s. sequence event = Some s \<and> s \<in> set ks))) \<and>
   (options.keys opts = None \<or> (options.keys opts = Some m \<and> m ''submit'' = None) \<longrightarrow>
      key_names (settings.keys (getDefaultSettings d opts)) ''submit'' =
        Some [''enter'', ''return''])"
proof (intro conjI impI)
  assume a: "options.keys opts = Some m \<and> m ''submit'' = Some (Some ks)"
  then show k: "key_names (settings.keys (getDefaultSettings d opts)) ''submit'' = Some ks"
    by (simp add: getDefaultSettings_def key_names_def map_add_def)
  show "isKey (settings.keys (getDefaultSettings d opts)) ''submit'' event =
        ((\<exists>n. name event = Some n \<and> n \<in> set ks) \<or>
         (\<exists>s. sequence event = Some s \<and> s \<in> set ks))"
    by (simp add: isKey_names k)
next
  assume "options.keys opts = None \<or> (options.keys opts = Some m \<and> m ''submit'' = None)"
  then show "key_names (settings.keys (getDefaultSettings d opts)) ''submit'' =
        Some [''enter'', ''return'']"
    by (auto simp add: getDefaultSettings_def key_names_def map_add_def default_keys_def)
qed

text \<open>
  With \<open>keys.submit\<close> set to \<open>["y"]\<close> the enter key no longer matches; without
  the option it does.
\<close>

theorem keys_override_replaces_witness:
  "key_names (settings.keys (getDefaultSettings ex_deps
      (ex_options\<lparr>options.keys := Some [''submit'' \<mapsto> Some [''y'']]\<rparr>))) ''submit'' = Some [''y''] \<and>
   \<not> isKey (settings.keys (getDefaultSettings ex_deps
      (ex_options\<lparr>options.keys := Some [''submit'' \<mapsto> Some [''y'']]\<rparr>))) ''submit'' enter_key \<and>
   key_names (settings.keys (getDefaultSettings ex_deps ex_options)) ''submit'' =
     Some [''enter'', ''return''] \<and>
   isKey (settings.keys (getDefaultSettings ex_deps ex_options)) ''submit'' enter_key"
proof -
  let ?m = "[''submit'' \<mapsto> Some [''y'']] :: keymap"
  let ?o = "ex_options\<lparr>options.keys := Some ?m\<rparr>"
  have o: "options.keys ?o = Some ?m \<and> ?m ''submit'' = Some (Some [''y''])"
    by simp
  have n: "options.keys ex_options = None"
    by (simp add: ex_options_def)
  have e: "name enter_key = Some ''enter''" "sequence enter_key = Some [CHR 0x0A]"
    by (simp_all add: enter_key_def)
  from keys_override_replaces [of ?o ?m "[''y'']" ex_deps enter_key] o e
  have "key_names (settings.keys (getDefaultSettings ex_deps ?o)) ''submit'' = Some [''y''] \<and>
        \<not> isKey (settings.keys (getDefaultSettings ex_deps ?o)) ''submit'' enter_key"
    by simp
  moreover from keys_override_replaces [of ex_options ?m "[''y'']" ex_deps enter_key] n
  have d: "key_names (settings.keys (getDefaultSettings ex_deps ex_options)) ''submit'' =
        Some [''enter'', ''return'']"
    by blast
  moreover from d e have "isKey (settings.keys (getDefaultSettings ex_deps ex_options)) ''submit'' enter_key"
    by (simp add: isKey_names)
  ultimately show ?thesis by blast
qed

subsection \<open>Raw mode around a read\<close>

lemma reader_read_resolves:
  assumes "\<forall>e. reads (the_deps c) (nreads p) \<noteq> ReadRejects e"
  shows "\<exists>r. reader_read c buffer p =
           (Return r, (emit (ReaderRead (settings.reader (the_settings c))) p)\<lparr>nreads := Suc (nreads p)\<rparr>)"
  using assms by (cases "reads (the_deps c) (nreads p)") (simp_all add: reader_read_def Let_def)

text \<open>
  C8, as the code has it. On a terminal, a read that resolves (to bytes, to zero
  bytes or to \<open>null\<close>) is bracketed: \<open>#readChar\<close> switches raw mode on, reads,
  switches raw mode off, in this order and with nothing in between, and raw mode is off
  when it returns.
\<close>

theorem readChar_raw_mode_released:
  assumes "isatty (the_deps c) (settings.reader (the_settings c))"
    and "\<forall>e. reads (the_deps c) (nreads p) \<noteq> ReadRejects e"
  shows "(\<exists>data. fst (readChar c p) = Return data) \<and>
         effects (snd (readChar c p)) =
           effects p @
           [SetRaw (settings.reader (the_settings c)) True (Some (settings.cbreak (the_settings c))),
            ReaderRead (settings.reader (the_settings c)),
            SetRaw (settings.reader (the_settings c)) False None] \<and>
         rawMode (snd (readChar c p)) = False"
proof -
  let ?rid = "settings.reader (the_settings c)"
  let ?p1 = "setRaw ?rid True (Some (settings.cbreak (the_settings c))) p"
  have "\<forall>e. reads (the_deps c) (nreads ?p1) \<noteq> ReadRejects e"
    using assms(2) by (simp add: setRaw_def emit_def)
  from reader_read_resolves [OF this, of "replicate 8 0"]
  obtain r where "reader_read c (replicate 8 0) ?p1 =
      (Return r, (emit (ReaderRead ?rid) ?p1)\<lparr>nreads := Suc (nreads ?p1)\<rparr>)"
    by blast
  with assms(1) show ?thesis
    by (cases r) (auto simp add: readChar_def Let_def bind_def setRaw_def emit_def split: option.splits)
qed

text \<open>
  A read of zero bytes on a terminal: raw mode on, the read, raw mode off.
\<close>

theorem readChar_raw_mode_released_witness:
  "isatty (the_deps (reading_ctx (ReadBytes []))) (settings.reader (the_settings (reading_ctx (ReadBytes [])))) \<and>
   fst (readChar (reading_ctx (ReadBytes [])) fresh) = Return [] \<and>
   effects (snd (readChar (reading_ctx (ReadBytes [])) fresh)) =
     [SetRaw 0 True (Some False), ReaderRead 0, SetRaw 0 False None] \<and>
   rawMode (snd (readChar (reading_ctx (ReadBytes [])) fresh)) = False"
proof -
  let ?c = "reading_ctx (ReadBytes [])"
  have t: "isatty (the_deps ?c) (settings.reader (the_settings ?c))"
    by (simp add: reading_ctx_def ex_defs)
  have r: "\<forall>e. reads (the_deps ?c) (nreads fresh) \<noteq> ReadRejects e"
    by (simp add: reading_ctx_def ex_defs)
  have s: "settings.reader (the_settings ?c) = 0" "settings.cbreak (the_settings ?c) = False"
    "effects fresh = []"
    by (simp_all add: reading_ctx_def ex_defs stdin_def)
  have d: "fst (readChar ?c fresh) = Return []"
    by (simp add: readChar_def reader_read_def bind_def setRaw_def emit_def Let_def
        reading_ctx_def ex_defs stdin_def)
  from readChar_raw_mode_released [OF t r] s d t show ?thesis by simp
qed

text \<open>
  C8 as the claim states it fails for a read that rejects: \<open>setRaw(false)\<close> follows
  the \<open>await\<close> of the read with no \<open>try\<close> and \<open>finally\<close> around it, so the
  exception leaves \<open>#readChar\<close> with raw mode still on.
\<close>

theorem readChar_raw_mode_counterexample:
  "isatty (the_deps (reading_ctx (ReadRejects ''interrupted'')))
     (settings.reader (the_settings (reading_ctx (ReadRejects ''interrupted'')))) \<and>
   rawMode fresh = False \<and>
   fst (readChar (reading_ctx (ReadRejects ''interrupted'')) fresh) = Throw ''interrupted'' \<and>
   effects (snd (readChar (reading_ctx (ReadRejects ''interrupted'')) fresh)) =
     [SetRaw 0 True (Some False), ReaderRead 0] \<and>
   rawMode (snd (readChar (reading_ctx (ReadRejects ''interrupted'')) fresh)) = True"
  by (simp add: readChar_def reader_read_def bind_def setRaw_def emit_def Let_def
      reading_ctx_def ex_defs stdin_def)

subsection \<open>The interrupt key\<close>

lemma handleEvent_interrupt:
  assumes "name event = Some ''c''" and "ctrl event"
  shows "handleEvent c event p =
           (Exit 130, p\<lparr>effects := effects p @ [CursorLeft, EraseDown, CursorShow]\<rparr>)"
  using assms by (simp add: handleEvent_def clear_def emit_def)

lemma handleEvents_append:
  "handleEvents c before p = (Return (), p1) \<Longrightarrow>
     handleEvents c (before @ rest) p = handleEvents c rest p1"
proof (induction before arbitrary: p)
  case Nil
  then show ?case by simp
next
  case (Cons ev before)
  obtain r q where h: "handleEvent c ev p = (r, q)" by (cases "handleEvent c ev p")
  show ?case
  proof (cases r)
    case (Return u)
    with h Cons.prems have "handleEvents c before q = (Return (), p1)"
      by (simp add: bind_def)
    from Cons.IH [OF this] h Return show ?thesis by (simp add: bind_def)
  next
    case (Throw e)
    with h Cons.prems show ?thesis by (simp add: bind_def)
  next
    case (Exit k)
    with h Cons.prems show ?thesis by (simp add: bind_def)
  qed
qed

lemma execute_pass_exit:
  assumes "injectedValue p = JUndefined"
    and "readKey c ((render c p)\<lparr>lastError := None\<rparr>) = (Return events, p1)"
    and "events \<noteq> []"
    and "handleEvents c events p1 = (Exit k, p2)"
  shows "execute_pass c p = (Some (Exit k), p2)"
  using assms by (simp add: execute_pass_def read_def bind_def)

text \<open>
  C9. Whatever the state, handling ctrl+c erases the render (cursor left, erase
  down), shows the cursor and then exits with status 130, and changes nothing else in
  the state: no validator runs. The events after it in the same read are not handled.
  For the whole call: when the keys decoded in a pass hold ctrl+c after keys that were
  handled normally, \<open>prompt\<close> ends in the exit with status 130, and showing the cursor
  is the last thing the process did.
\<close>

theorem interrupt_exits_130:
  assumes "name event = Some ''c''" and "ctrl event"
  shows "handleEvent c event p =
           (Exit 130, p\<lparr>effects := effects p @ [CursorLeft, EraseDown, CursorShow]\<rparr>) \<and>
         (handleEvents c before p = (Return (), p1) \<longrightarrow>
            handleEvents c (before @ event # after) p =
              (Exit 130, p1\<lparr>effects := effects p1 @ [CursorLeft, EraseDown, CursorShow]\<rparr>)) \<and>
         (injectedValue p = JUndefined \<and>
          readKey c ((render c p)\<lparr>lastError := None\<rparr>) = (Return (before @ event # after), p2) \<and>
          handleEvents c before p2 = (Return (), p3) \<longrightarrow>
            prompt (Suc n) c p =
              Some (Exit 130, p3\<lparr>effects := effects p3 @ [CursorLeft, EraseDown, CursorShow]\<rparr>))"
proof (intro conjI impI)
  show "handleEvent c event p =
           (Exit 130, p\<lparr>effects := effects p @ [CursorLeft, EraseDown, CursorShow]\<rparr>)"
    by (rule handleEvent_interrupt [OF assms])
next
  assume "handleEvents c before p = (Return (), p1)"
  then show "handleEvents c (before @ event # after) p =
              (Exit 130, p1\<lparr>effects := effects p1 @ [CursorLeft, EraseDown, CursorShow]\<rparr>)"
    by (simp add: handleEvents_append handleEvent_interrupt [OF assms] bind_def)
next
  assume a: "injectedValue p = JUndefined \<and>
          readKey c ((render c p)\<lparr>lastError := None\<rparr>) = (Return (before @ event # after), p2) \<and>
          handleEvents c before p2 = (Return (), p3)"
  then have "handleEvents c (before @ event # after) p2 =
              (Exit 130, p3\<lparr>effects := effects p3 @ [CursorLeft, EraseDown, CursorShow]\<rparr>)"
    by (simp add: handleEvents_append handleEvent_interrupt [OF assms] bind_def)
  with a have "execute_pass c p =
      (Some (Exit 130), p3\<lparr>effects := effects p3 @ [CursorLeft, EraseDown, CursorShow]\<rparr>)"
    by (intro execute_pass_exit [where events = "before @ event # after" and ?p1.0 = p2]) simp_all
  then show "prompt (Suc n) c p =
              Some (Exit 130, p3\<lparr>effects := effects p3 @ [CursorLeft, EraseDown, CursorShow]\<rparr>)"
    by (simp add: prompt_def)
qed

text \<open>
  The bytes 65, 3, 13 in one read: the key before ctrl+c is handled, ctrl+c exits, and
  the return key after it submits nothing.
\<close>

theorem interrupt_exits_130_witness:
  "name ctrl_c = Some ''c'' \<and> ctrl ctrl_c \<and>
   handleEvent (reading_ctx (ReadBytes [65, 3, 13])) ctrl_c fresh =
     (Exit 130, fresh\<lparr>effects := [CursorLeft, EraseDown, CursorShow]\<rparr>) \<and>
   map_option fst (prompt (Suc 0) (reading_ctx (ReadBytes [65, 3, 13])) fresh) = Some (Exit 130) \<and>
   map_option (effects \<circ> snd) (prompt (Suc 0) (reading_ctx (ReadBytes [65, 3, 13])) fresh) =
     Some [DenoWriteSync 1 ''? Name'', CursorTo 0, SetRaw 0 True (Some False), ReaderRead 0,
           SetRaw 0 False None, CallParse [65, 3, 13], CursorLeft, EraseDown, CursorShow]"
proof -
  let ?c = "reading_ctx (ReadBytes [65, 3, 13])"
  let ?q = "(render ?c fresh)\<lparr>lastError := None\<rparr>"
  let ?p2 = "snd (readKey ?c ?q)"
  have k: "name ctrl_c = Some ''c''" "ctrl ctrl_c"
    by (simp_all add: ctrl_c_def ex_key_def)
  have i: "injectedValue fresh = JUndefined" "effects fresh = []"
    by (simp_all add: fresh_def)
  have r: "readKey ?c ?q = (Return ([ex_key 65] @ ctrl_c # [ex_key 13]), ?p2)"
    by (simp add: read_defs run_defs ex_defs ctrl_c_def)
  have b: "handleEvents ?c [ex_key 65] ?p2 = (Return (), ?p2)"
    by (simp add: handleEvent_def isKey_def key_names_def default_keys_def bind_def ex_key_def
        reading_ctx_def ex_defs)
  have e: "effects ?p2 =
      [DenoWriteSync 1 ''? Name'', CursorTo 0, SetRaw 0 True (Some False), ReaderRead 0,
       SetRaw 0 False None, CallParse [65, 3, 13]]"
    by (simp add: read_defs run_defs ex_defs)
  from interrupt_exits_130 [OF k, of ?c fresh "[ex_key 65]" ?p2 "[ex_key 13]" ?p2 ?p2 0] i r b e k
  show ?thesis by simp
qed

subsection \<open>End of stream\<close>

lemma nreads_setRaw [simp]: "nreads (setRaw rid mode cb p) = nreads p"
  by (simp add: setRaw_def emit_def)

lemma readChar_result:
  "fst (readChar c p) =
     (case reads (the_deps c) (nreads p) of
        ReadNull \<Rightarrow> Return (replicate 8 0)
      | ReadBytes bs \<Rightarrow> Return (take 8 bs)
      | ReadRejects e \<Rightarrow> Throw e)"
  by (cases "reads (the_deps c) (nreads p)")
     (simp_all add: readChar_def reader_read_def bind_def Let_def min_def)

lemma readChar_effects_last:
  "last (effects (snd (readChar c p))) \<noteq> CallParse bs"
  by (cases "reads (the_deps c) (nreads p)")
     (simp_all add: readChar_def reader_read_def bind_def Let_def setRaw_def emit_def)

lemma readKey_cases:
  "readKey c p =
     (case readChar c p of
        (Return data, p1) \<Rightarrow>
          if data = [] then (Return [], p1)
          else (case parse (the_deps c) data of
                  Inl e \<Rightarrow> (Throw e, emit (CallParse data) p1)
                | Inr events \<Rightarrow> (Return events, emit (CallParse data) p1))
      | (Throw e, p1) \<Rightarrow> (Throw e, p1)
      | (Exit k, p1) \<Rightarrow> (Exit k, p1))"
  by (simp add: readKey_def bind_def split: prod.splits outcome.splits)

text \<open>
  C10. When the read resolves to \<open>null\<close>, \<open>#readChar\<close> returns the whole buffer of
  8 zero bytes, \<open>#readKey\<close> passes them to the key decoder and returns what it
  decodes, and \<open>read\<close> dispatches the decoded events instead of returning
  \<open>false\<close> for an empty cycle. \<open>#readChar\<close> returns no bytes only for a read of 0
  bytes, and the key decoder is called after every read that resolves, but for the read
  of 0 bytes.
\<close>

theorem readChar_end_of_stream:
  "(reads (the_deps c) (nreads p) = ReadNull \<longrightarrow>
      fst (readChar c p) = Return (replicate 8 0) \<and>
      fst (readKey c p) =
        (case parse (the_deps c) (replicate 8 0) of
           Inl e \<Rightarrow> Throw e
         | Inr events \<Rightarrow> Return events) \<and>
      last (effects (snd (readKey c p))) = CallParse (replicate 8 0) \<and>
      (\<forall>events. injectedValue p = JUndefined \<and>
         parse (the_deps c) (replicate 8 0) = Inr events \<and> events \<noteq> [] \<longrightarrow>
           read c p =
             bind (handleEvents c events (snd (readKey c p)))
               (\<lambda>u p2. (Return (the_value p2 \<noteq> JUndefined), p2)))) \<and>
   ((fst (readChar c p) = Return []) = (reads (the_deps c) (nreads p) = ReadBytes [])) \<and>
   ((\<exists>bs. last (effects (snd (readKey c p))) = CallParse bs) =
      (reads (the_deps c) (nreads p) \<noteq> ReadBytes [] \<and>
       (\<forall>e. reads (the_deps c) (nreads p) \<noteq> ReadRejects e)))"
proof (intro conjI impI allI)
  assume n: "reads (the_deps c) (nreads p) = ReadNull"
  then show d: "fst (readChar c p) = Return (replicate 8 0)"
    by (simp add: readChar_result)
  obtain p1 where c1: "readChar c p = (Return (replicate 8 0), p1)"
    using d by (cases "readChar c p") simp
  show k: "fst (readKey c p) =
        (case parse (the_deps c) (replicate 8 0) of
           Inl e \<Rightarrow> Throw e
         | Inr events \<Rightarrow> Return events)"
    by (simp add: readKey_cases c1 split: sum.splits)
  show "last (effects (snd (readKey c p))) = CallParse (replicate 8 0)"
    by (simp add: readKey_cases c1 emit_def split: sum.splits)
  fix events
  assume a: "injectedValue p = JUndefined \<and>
         parse (the_deps c) (replicate 8 0) = Inr events \<and> events \<noteq> []"
  then obtain p2 where "readKey c p = (Return events, p2)"
    using k by (cases "readKey c p") simp
  with a show "read c p =
             bind (handleEvents c events (snd (readKey c p)))
               (\<lambda>u p2. (Return (the_value p2 \<noteq> JUndefined), p2))"
    by (simp add: read_def bind_def)
next
  show "(fst (readChar c p) = Return []) = (reads (the_deps c) (nreads p) = ReadBytes [])"
    by (cases "reads (the_deps c) (nreads p)") (auto simp add: readChar_result)
next
  show "(\<exists>bs. last (effects (snd (readKey c p))) = CallParse bs) =
      (reads (the_deps c) (nreads p) \<noteq> ReadBytes [] \<and>
       (\<forall>e. reads (the_deps c) (nreads p) \<noteq> ReadRejects e))"
  proof (cases "readChar c p")
    case (Pair r p1)
    have l: "\<And>bs. last (effects p1) \<noteq> CallParse bs"
      using readChar_effects_last [of c p] Pair by simp
    have f: "fst (readChar c p) = r" using Pair by simp
    show ?thesis
    proof (cases "reads (the_deps c) (nreads p)")
      case ReadNull
      with f have "r = Return (replicate 8 0)" by (simp add: readChar_result)
      with Pair ReadNull show ?thesis
        by (auto simp add: readKey_cases emit_def split: sum.splits)
    next
      case (ReadBytes bs)
      with f have r: "r = Return (take 8 bs)" by (simp add: readChar_result)
      show ?thesis
      proof (cases "bs = []")
        case True
        with r Pair ReadBytes l show ?thesis by (simp add: readKey_cases)
      next
        case False
        then have "take 8 bs \<noteq> []" by simp
        with r Pair ReadBytes False show ?thesis
          by (auto simp add: readKey_cases emit_def split: sum.splits)
      qed
    next
      case (ReadRejects e)
      with f have "r = Throw e" by (simp add: readChar_result)
      with Pair ReadRejects l show ?thesis by (simp add: readKey_cases)
    qed
  qed
qed

text \<open>
  End of stream on the example reader: 8 zero bytes are decoded to 8 key events. A read
  of zero bytes decodes nothing.
\<close>

theorem readChar_end_of_stream_witness:
  "reads (the_deps (reading_ctx ReadNull)) (nreads fresh) = ReadNull \<and>
   fst (readChar (reading_ctx ReadNull) fresh) = Return [0, 0, 0, 0, 0, 0, 0, 0] \<and>
   fst (readKey (reading_ctx ReadNull) fresh) = Return (replicate 8 (ex_key 0)) \<and>
   last (effects (snd (readKey (reading_ctx ReadNull) fresh))) = CallParse [0, 0, 0, 0, 0, 0, 0, 0] \<and>
   fst (readChar (reading_ctx (ReadBytes [])) fresh) = Return [] \<and>
   fst (readKey (reading_ctx (ReadBytes [])) fresh) = Return [] \<and>
   effects (snd (readKey (reading_ctx (ReadBytes [])) fresh)) =
     [SetRaw 0 True (Some False), ReaderRead 0, SetRaw 0 False None]"
proof -
  let ?c = "reading_ctx ReadNull"
  let ?z = "reading_ctx (ReadBytes [])"
  have n: "reads (the_deps ?c) (nreads fresh) = ReadNull"
    by (simp add: reading_ctx_def)
  have z: "reads (the_deps ?z) (nreads fresh) = ReadBytes []"
    by (simp add: reading_ctx_def)
  have p: "parse (the_deps ?c) (replicate 8 0) = Inr (replicate 8 (ex_key 0))"
    by (simp add: reading_ctx_def ex_deps_def)
  have r: "replicate 8 (0::nat) = [0, 0, 0, 0, 0, 0, 0, 0]"
    by (simp add: eval_nat_numeral)
  have k: "readKey ?z fresh =
      (Return [], fresh\<lparr>rawMode := False, nreads := 1,
         effects := [SetRaw 0 True (Some False), ReaderRead 0, SetRaw 0 False None]\<rparr>)"
    by (simp add: read_defs ex_defs)
  from readChar_end_of_stream [of ?c fresh] n p
  have "fst (readChar ?c fresh) = Return (replicate 8 0) \<and>
        fst (readKey ?c fresh) = Return (replicate 8 (ex_key 0)) \<and>
        last (effects (snd (readKey ?c fresh))) = CallParse (replicate 8 0)"
    by simp
  moreover from readChar_end_of_stream [of ?z fresh] z
  have "fst (readChar ?z fresh) = Return []"
    by simp
  ultimately show ?thesis using n k r by simp
qed

end
